theory Spec2Isabelle
  imports Complex_Main "HOL-Library.Word" "HOL-Library.Log_Nat"
begin

section \<open>The speed tracker of \<open>ESP32_Firmware.ino\<close>\<close>

text \<open>
  The firmware counts the edges of a Hall sensor in an interrupt handler and derives wheel
  RPM and linear speed from the time between two accepted edges in its main loop, which
  sends a telemetry packet every 100 ms.
  All counters are \<open>uint32_t\<close>: they are modelled as \<open>32 word\<close>, whose \<open>+\<close> and \<open>-\<close>
  wrap around modulo \<open>2 ^ 32\<close> exactly as the C++ operators do.
\<close>

type_synonym uint8_t = "8 word"
type_synonym uint16_t = "16 word"
type_synonym uint32_t = "32 word"

text \<open>\<open>constexpr uint8_t MAGNETS_PER_REV = 1;\<close>\<close>

definition MAGNETS_PER_REV :: uint8_t where
  "MAGNETS_PER_REV = 1"

text \<open>\<open>constexpr uint32_t MIN_PULSE_GAP_US = 2000;\<close>\<close>

definition MIN_PULSE_GAP_US :: uint32_t where
  "MIN_PULSE_GAP_US = 2000"

text \<open>\<open>constexpr uint32_t NO_PULSE_TIMEOUT_MS = 600;\<close>\<close>

definition NO_PULSE_TIMEOUT_MS :: uint32_t where
  "NO_PULSE_TIMEOUT_MS = 600"

section \<open>Floating-point arithmetic\<close>

text \<open>
  A \<open>float\<close> or \<open>double\<close> value is modelled by the real number it denotes, and every
  operation computes the exact real result and rounds it to the nearest number with a
  significand of 24 bits (\<open>float\<close>, IEEE 754 binary32) or 53 bits (\<open>double\<close>, binary64),
  ties going to the even significand: the default rounding of the hardware and of the
  compiler's constant folding.

  Two things are left out and one is made explicit.
  \<^item> The exponent is unbounded: there is no overflow to infinity and no gradual underflow.
    The values the helpers and the main loop compute stay far inside the normal range of
    both formats (lemmas \<open>rev_per_sec_in_range\<close>, \<open>rpm_in_range\<close>, \<open>speed_in_range\<close> and
    \<open>loop_speed_in_range\<close> below), where this rounding is the IEEE one.
  \<^item> Infinities, NaN and the sign of zero are not values of the model.
  \<^item> A division whose divisor is zero has no value (\<open>None\<close>): it is the fault that the
    guard of \<open>rpmFromInterval\<close> is there to prevent.
\<close>

text \<open>Rounding a real to the nearest integer, a tie to the even neighbour.\<close>

definition rne :: "real \<Rightarrow> int" where
  "rne y = (let n = \<lfloor>y\<rfloor>; r = y - of_int n
            in if r < 1/2 then n else if 1/2 < r then n + 1
               else if even n then n else n + 1)"

text \<open>
  The binary exponent of a nonzero real: the \<open>k\<close> with \<open>2 ^ k \<le> \<bar>x\<bar> < 2 ^ (k + 1)\<close>
  (lemma \<open>binade_bounds\<close>), computed from the bit length of an integer.
\<close>

definition binade :: "real \<Rightarrow> int" where
  "binade x = (if 1 \<le> \<bar>x\<bar> then bitlen \<lfloor>\<bar>x\<bar>\<rfloor> - 1 else - bitlen (\<lceil>1 / \<bar>x\<bar>\<rceil> - 1))"

text \<open>Rounding to \<open>p\<close> significant bits: scale so that the significand is an integer, round, scale back.\<close>

definition fround :: "nat \<Rightarrow> real \<Rightarrow> real" where
  "fround p x = (if x = 0 then 0
                 else let e = binade x - int p + 1
                      in of_int (rne (x / 2 powr of_int e)) * 2 powr of_int e)"

definition f32 :: "real \<Rightarrow> real" where
  "f32 x = fround 24 x"

definition f64 :: "real \<Rightarrow> real" where
  "f64 x = fround 53 x"

definition mul_f32 :: "real \<Rightarrow> real \<Rightarrow> real" where
  "mul_f32 a b = f32 (a * b)"

definition div_f32 :: "real \<Rightarrow> real \<Rightarrow> real option" where
  "div_f32 a b = (if b = 0 then None else Some (f32 (a / b)))"

definition mul_f64 :: "real \<Rightarrow> real \<Rightarrow> real" where
  "mul_f64 a b = f64 (a * b)"

definition div_f64 :: "real \<Rightarrow> real \<Rightarrow> real option" where
  "div_f64 a b = (if b = 0 then None else Some (f64 (a / b)))"

text \<open>\<open>constexpr float WHEEL_CIRCUMFERENCE_M = 0.210f;\<close>\<close>

definition WHEEL_CIRCUMFERENCE_M :: real where
  "WHEEL_CIRCUMFERENCE_M = f32 0.21"

text \<open>The literal \<open>3.6f\<close> of the packet assembly (line 163).\<close>

definition mps_to_kph :: real where
  "mps_to_kph = f32 3.6"

section \<open>Pulse capture: the interrupt handler\<close>

text \<open>
  The three \<open>volatile uint32_t\<close> globals written by the handler, as one record.
  All three are initialised to \<open>0\<close> by their declarations.
\<close>

record pulse_state =
  g_pulseCount :: uint32_t
  g_lastPulseMicros :: uint32_t
  g_lastIntervalMicros :: uint32_t

definition startup :: pulse_state where
  "startup = \<lparr>g_pulseCount = 0, g_lastPulseMicros = 0, g_lastIntervalMicros = 0\<rparr>"

text \<open>
  The handler. Its first argument is the value that \<open>micros()\<close> returns when the handler
  runs; the source's identifier is \<open>isr_ky024\<close>.
  \<^verbatim>\<open>
  uint32_t now = micros();
  uint32_t gap = now - g_lastPulseMicros;
  if (gap >= MIN_PULSE_GAP_US) {
    g_lastIntervalMicros = gap;
    g_lastPulseMicros = now;
    g_pulseCount++;
  }
  \<close>
\<close>

definition isr_ky024 :: "uint32_t \<Rightarrow> pulse_state \<Rightarrow> pulse_state" where
  "isr_ky024 now s =
     (let gap = now - g_lastPulseMicros s
      in if gap \<ge> MIN_PULSE_GAP_US
         then s\<lparr>g_lastIntervalMicros := gap,
                g_lastPulseMicros := now,
                g_pulseCount := g_pulseCount s + 1\<rparr>
         else s)"

text \<open>
  A run of the handler over the edges of a list of times, and the number of edges it
  accepts on the way. The hardware decides the list; the two functions only replay it.
\<close>

fun edges :: "uint32_t list \<Rightarrow> pulse_state \<Rightarrow> pulse_state" where
  "edges [] s = s"
| "edges (now # ts) s = edges ts (isr_ky024 now s)"

fun accepted :: "uint32_t list \<Rightarrow> pulse_state \<Rightarrow> nat" where
  "accepted [] s = 0"
| "accepted (now # ts) s =
     (if now - g_lastPulseMicros s \<ge> MIN_PULSE_GAP_US then 1 else 0) + accepted ts (isr_ky024 now s)"

section \<open>The helpers\<close>

text \<open>
  \<^verbatim>\<open>
  float rpmFromInterval(uint32_t intervalMicros, uint8_t magnetsPerRev) {
    if (intervalMicros == 0 || magnetsPerRev == 0) return 0.0f;
    const double rev_per_sec = 1e6 / (double(intervalMicros) * double(magnetsPerRev));
    return float(rev_per_sec * 60.0);
  }
  \<close>
  The conversions \<open>double(...)\<close>, the literals and the final \<open>float(...)\<close> are roundings too.
\<close>

definition rpmFromInterval :: "uint32_t \<Rightarrow> uint8_t \<Rightarrow> real option" where
  "rpmFromInterval intervalMicros magnetsPerRev =
     (if intervalMicros = 0 \<or> magnetsPerRev = 0 then Some 0
      else case div_f64 (f64 1000000)
                  (mul_f64 (f64 (real (unat intervalMicros))) (f64 (real (unat magnetsPerRev)))) of
             None \<Rightarrow> None
           | Some rev_per_sec \<Rightarrow> Some (f32 (mul_f64 rev_per_sec (f64 60))))"

text \<open>
  \<^verbatim>\<open>
  float speedMpsFromRPM(float rpm, float circumference_m) {
    return (rpm * circumference_m) / 60.0f;
  }
  \<close>
\<close>

definition speedMpsFromRPM :: "real \<Rightarrow> real \<Rightarrow> real option" where
  "speedMpsFromRPM rpm circumference_m = div_f32 (mul_f32 rpm circumference_m) (f32 60)"

section \<open>The main loop\<close>

text \<open>
  The elapsed time (line 148):
  \<^verbatim>\<open>const uint32_t sinceLastPulseMs = (nowUs - lastPulseMicrosSnapshot) / 1000U;\<close>
\<close>

definition sinceLastPulseMs :: "uint32_t \<Rightarrow> uint32_t \<Rightarrow> uint32_t" where
  "sinceLastPulseMs nowUs lastPulseMicrosSnapshot =
     (nowUs - lastPulseMicrosSnapshot) div 1000"

text \<open>
  The two calls of the loop's first branch (lines 151 and 152), which the specification
  names \<open>estimate\<close>:
  \<^verbatim>\<open>
  rpm = rpmFromInterval(lastIntervalMicrosSnapshot, MAGNETS_PER_REV);
  speed_mps = speedMpsFromRPM(rpm, WHEEL_CIRCUMFERENCE_M);
  \<close>
  with the interval, the magnet count and the circumference as arguments.
\<close>

definition estimate :: "uint32_t \<Rightarrow> uint8_t \<Rightarrow> real \<Rightarrow> (real \<times> real) option" where
  "estimate intervalMicros magnetsPerRev circumference_m =
     (case rpmFromInterval intervalMicros magnetsPerRev of
        None \<Rightarrow> None
      | Some rpm \<Rightarrow>
          (case speedMpsFromRPM rpm circumference_m of
             None \<Rightarrow> None
           | Some speed_mps \<Rightarrow> Some (rpm, speed_mps)))"

text \<open>
  Lines 144 to 156: the speed of one pass of the loop, from the snapshot of the three
  globals (read with interrupts disabled) and the value \<open>nowUs\<close> of \<open>micros()\<close>.
  \<^verbatim>\<open>
  if (sinceLastPulseMs <= NO_PULSE_TIMEOUT_MS && lastIntervalMicrosSnapshot > 0) {
    rpm = rpmFromInterval(lastIntervalMicrosSnapshot, MAGNETS_PER_REV);
    speed_mps = speedMpsFromRPM(rpm, WHEEL_CIRCUMFERENCE_M);
  } else {
    rpm = 0.0f;
    speed_mps = 0.0f;
  }
  \<close>
\<close>

definition loop_speed :: "pulse_state \<Rightarrow> uint32_t \<Rightarrow> (real \<times> real) option" where
  "loop_speed snapshot nowUs =
     (if sinceLastPulseMs nowUs (g_lastPulseMicros snapshot) \<le> NO_PULSE_TIMEOUT_MS
         \<and> g_lastIntervalMicros snapshot > 0
      then estimate (g_lastIntervalMicros snapshot) MAGNETS_PER_REV WHEEL_CIRCUMFERENCE_M
      else Some (0, 0))"

text \<open>The packed struct \<open>Telemetry\<close>, field by field.\<close>

record Telemetry =
  speed_mps :: real
  speed_kph :: real
  rpm :: real
  hall_raw :: uint16_t
  millis_ts :: uint32_t

text \<open>
  What the loop keeps between two passes: its \<open>static uint32_t lastSendMs = 0\<close> and the
  global \<open>Telemetry tx{}\<close>.
\<close>

record loop_state =
  lastSendMs :: uint32_t
  tx :: Telemetry

definition loop_startup :: loop_state where
  "loop_startup = \<lparr>lastSendMs = 0,
     tx = \<lparr>speed_mps = 0, speed_kph = 0, rpm = 0, hall_raw = 0, millis_ts = 0\<rparr>\<rparr>"

text \<open>
  One pass of \<open>loop()\<close>. The arguments are what the pass reads from its environment, in
  the order it reads them: \<open>millis()\<close>, \<open>analogRead(PIN_KY024_AO)\<close>, the snapshot of the
  handler's globals and \<open>micros()\<close>. The result is the state after the pass and the packet
  handed to \<open>setValue\<close> and \<open>notify\<close>, if the pass sends one; \<open>None\<close> would be a division by
  zero on the way.
  \<^verbatim>\<open>
  if (nowMs - lastSendMs >= 100) {
    lastSendMs = nowMs;
    tx.speed_mps = speed_mps;
    tx.speed_kph = speed_mps * 3.6f;
    tx.rpm       = rpm;
    tx.hall_raw  = hallRaw;
    tx.millis_ts = nowMs;
    pCharacteristic->setValue((uint8_t*)&tx, sizeof(tx));
    pCharacteristic->notify();
  }
  \<close>
\<close>

definition loop ::
  "uint32_t \<Rightarrow> uint16_t \<Rightarrow> pulse_state \<Rightarrow> uint32_t \<Rightarrow> loop_state \<Rightarrow> (loop_state \<times> Telemetry option) option" where
  "loop nowMs hallRaw snapshot nowUs st =
     (case loop_speed snapshot nowUs of
        None \<Rightarrow> None
      | Some (rpm_v, speed_v) \<Rightarrow>
          if nowMs - lastSendMs st \<ge> 100
          then let tx' = \<lparr>speed_mps = speed_v,
                          speed_kph = mul_f32 speed_v mps_to_kph,
                          rpm = rpm_v,
                          hall_raw = hallRaw,
                          millis_ts = nowMs\<rparr>
               in Some (\<lparr>lastSendMs = nowMs, tx = tx'\<rparr>, Some tx')
          else Some (st, None))"

text \<open>
  A snapshot used in the examples below: five edges accepted, the last one three seconds
  after startup and half a second after the one before it.
\<close>

definition fresh_snapshot :: pulse_state where
  "fresh_snapshot = \<lparr>g_pulseCount = 5, g_lastPulseMicros = 3000000, g_lastIntervalMicros = 500000\<rparr>"

section \<open>Rounding: basic facts\<close>

lemma rne_of_int: "rne (of_int n) = n"
  by (simp add: rne_def)

lemma rne_floor_cases: "rne y = \<lfloor>y\<rfloor> \<or> rne y = \<lfloor>y\<rfloor> + 1"
  by (simp add: rne_def Let_def)

lemma rne_close: "\<bar>of_int (rne y) - y\<bar> \<le> 1/2"
proof -
  have "of_int \<lfloor>y\<rfloor> \<le> y" "y < of_int \<lfloor>y\<rfloor> + 1" by linarith+
  then show ?thesis
    unfolding rne_def Let_def by (auto simp: abs_le_iff)
qed

lemma rne_ge: "of_int k \<le> y \<Longrightarrow> k \<le> rne y"
proof -
  assume "of_int k \<le> y"
  then have "k \<le> \<lfloor>y\<rfloor>" by (simp add: le_floor_iff)
  then show ?thesis using rne_floor_cases [of y] by auto
qed

lemma rne_le: "y \<le> of_int k \<Longrightarrow> rne y \<le> k"
proof (cases "y = of_int k")
  case True
  then show ?thesis by (simp add: rne_of_int)
next
  case False
  assume "y \<le> of_int k"
  with False have "y < of_int k" by simp
  then have "\<lfloor>y\<rfloor> < k" by (simp add: floor_less_iff)
  then show ?thesis using rne_floor_cases [of y] by auto
qed

lemma two_powr_int: "0 \<le> k \<Longrightarrow> 2 powr of_int k = (2::real) ^ nat k"
  by (simp add: powr_real_of_int)

lemma two_powr_neg_int: "0 \<le> k \<Longrightarrow> 2 powr of_int (- k) = 1 / (2::real) ^ nat k"
  by (simp add: powr_minus two_powr_int divide_inverse)

lemma binade_bounds:
  assumes "x \<noteq> 0"
  shows "2 powr of_int (binade x) \<le> \<bar>x\<bar>" and "\<bar>x\<bar> < 2 powr (of_int (binade x) + 1)"
proof -
  have "2 powr of_int (binade x) \<le> \<bar>x\<bar> \<and> \<bar>x\<bar> < 2 powr (of_int (binade x) + 1)"
  proof (cases "1 \<le> \<bar>x\<bar>")
    case True
    define n where "n = \<lfloor>\<bar>x\<bar>\<rfloor>"
    have n: "0 < n" "of_int n \<le> \<bar>x\<bar>" "\<bar>x\<bar> < of_int n + 1"
      using True unfolding n_def by linarith+
    have b: "2 ^ nat (bitlen n - 1) \<le> n" "n < 2 ^ nat (bitlen n)"
      using bitlen_bounds [OF n(1)] by auto
    have bpos: "0 < bitlen n" using n(1) bitlen_eq_zero_iff [of n] bitlen_nonneg [of n] by linarith
    have e: "binade x = bitlen n - 1" using True by (simp add: binade_def n_def)
    have "2 powr of_int (bitlen n - 1) = (2::real) ^ nat (bitlen n - 1)"
      using bpos by (intro two_powr_int) simp
    also have "\<dots> \<le> of_int n" using b(1) by (metis of_int_le_iff of_int_numeral of_int_power)
    finally have lo: "2 powr of_int (binade x) \<le> \<bar>x\<bar>" using n(2) e by simp
    have "n + 1 \<le> 2 ^ nat (bitlen n)" using b(2) by simp
    then have "(of_int (n + 1) :: real) \<le> of_int (2 ^ nat (bitlen n))" by (rule of_int_le_iff [THEN iffD2])
    then have "of_int n + 1 \<le> (2::real) ^ nat (bitlen n)" by simp
    also have "\<dots> = 2 powr of_int (bitlen n)"
      using bpos by (intro two_powr_int [symmetric]) simp
    finally have "\<bar>x\<bar> < 2 powr (of_int (binade x) + 1)" using n(3) e by simp
    with lo show ?thesis by simp
  next
    case False
    define y where "y = 1 / \<bar>x\<bar>"
    define c where "c = \<lceil>y\<rceil> - 1"
    have x: "0 < \<bar>x\<bar>" "\<bar>x\<bar> < 1" using assms False by auto
    then have y1: "1 < y" by (simp add: y_def)
    have c: "0 < c" "of_int c < y" "y \<le> of_int c + 1"
      using y1 unfolding c_def by linarith+
    have b: "2 ^ nat (bitlen c - 1) \<le> c" "c < 2 ^ nat (bitlen c)"
      using bitlen_bounds [OF c(1)] by auto
    have bpos: "0 < bitlen c" using c(1) bitlen_eq_zero_iff [of c] bitlen_nonneg [of c] by linarith
    have e: "binade x = - bitlen c" using False by (simp add: binade_def c_def y_def)
    have xy: "\<bar>x\<bar> = 1 / y" using x by (simp add: y_def)
    have "c + 1 \<le> 2 ^ nat (bitlen c)" using b(2) by simp
    then have "(of_int (c + 1) :: real) \<le> of_int (2 ^ nat (bitlen c))" by (rule of_int_le_iff [THEN iffD2])
    then have "of_int c + 1 \<le> (2::real) ^ nat (bitlen c)" by simp
    then have "y \<le> (2::real) ^ nat (bitlen c)" using c(3) by linarith
    then have "1 / (2::real) ^ nat (bitlen c) \<le> 1 / y" using y1 by (simp add: frac_le)
    moreover have "2 powr of_int (- bitlen c) = 1 / (2::real) ^ nat (bitlen c)"
      using bpos by (intro two_powr_neg_int) simp
    ultimately have lo: "2 powr of_int (binade x) \<le> \<bar>x\<bar>" using e xy by simp
    have "(of_int (2 ^ nat (bitlen c - 1)) :: real) \<le> of_int c" using b(1) by (rule of_int_le_iff [THEN iffD2])
    then have "(2::real) ^ nat (bitlen c - 1) \<le> of_int c" by simp
    then have "(2::real) ^ nat (bitlen c - 1) < y" using c(2) by linarith
    then have "1 / y < 1 / (2::real) ^ nat (bitlen c - 1)" by (simp add: frac_less2)
    moreover have "2 powr (of_int (- bitlen c) + 1) = 1 / (2::real) ^ nat (bitlen c - 1)"
    proof -
      have "of_int (- bitlen c) + 1 = (of_int (- (bitlen c - 1)) :: real)" by simp
      also have "2 powr \<dots> = 1 / (2::real) ^ nat (bitlen c - 1)"
        using bpos by (intro two_powr_neg_int) simp
      finally show ?thesis .
    qed
    ultimately have "\<bar>x\<bar> < 2 powr (of_int (binade x) + 1)" using e xy by simp
    with lo show ?thesis by simp
  qed
  then show "2 powr of_int (binade x) \<le> \<bar>x\<bar>" and "\<bar>x\<bar> < 2 powr (of_int (binade x) + 1)" by simp_all
qed

lemma binade_unique:
  assumes "2 powr of_int k \<le> \<bar>x\<bar>" and "\<bar>x\<bar> < 2 powr (of_int k + 1)"
  shows "binade x = k"
proof -
  have "0 < \<bar>x\<bar>" using assms(1) by (smt (verit) powr_gt_zero)
  then have nz: "x \<noteq> 0" by auto
  have "2 powr of_int (binade x) < (2::real) powr (of_int k + 1)"
    using binade_bounds(1) [OF nz] assms(2) by linarith
  then have "of_int (binade x) < (of_int k + 1 :: real)" by simp
  then have a: "binade x \<le> k" by linarith
  have "2 powr of_int k < (2::real) powr (of_int (binade x) + 1)"
    using binade_bounds(2) [OF nz] assms(1) by linarith
  then have "of_int k < (of_int (binade x) + 1 :: real)" by simp
  then have "k \<le> binade x" by linarith
  with a show ?thesis by simp
qed

lemma fround_0: "fround p 0 = 0"
  by (simp add: fround_def)

lemma fround_scaled:
  "x \<noteq> 0 \<Longrightarrow> fround p x =
     of_int (rne (x / 2 powr of_int (binade x - int p + 1))) * 2 powr of_int (binade x - int p + 1)"
  by (simp add: fround_def Let_def)

lemma fround_nonneg:
  assumes "0 \<le> x"
  shows "0 \<le> fround p x"
proof (cases "x = 0")
  case True
  then show ?thesis by (simp add: fround_0)
next
  case False
  have "of_int 0 \<le> x / 2 powr of_int (binade x - int p + 1)"
    using assms by simp
  then have "0 \<le> rne (x / 2 powr of_int (binade x - int p + 1))" by (rule rne_ge)
  then show ?thesis
    using False by (simp add: fround_scaled)
qed

lemma fround_pos:
  assumes "0 < x" and "0 < p"
  shows "0 < fround p x"
proof -
  define e where "e = binade x - int p + 1"
  have nz: "x \<noteq> 0" using assms(1) by simp
  have "2 powr of_int (binade x) \<le> x"
    using binade_bounds(1) [OF nz] assms(1) by simp
  moreover have "(2::real) powr of_int e \<le> 2 powr of_int (binade x)"
    using assms(2) by (simp add: e_def)
  ultimately have "2 powr of_int e \<le> x" by linarith
  then have "of_int 1 \<le> x / 2 powr of_int e" by (simp add: le_divide_eq)
  then have "1 \<le> rne (x / 2 powr of_int e)" by (rule rne_ge)
  then have "0 < of_int (rne (x / 2 powr of_int e)) * (2::real) powr of_int e"
    by simp
  then show ?thesis using nz by (simp add: fround_scaled e_def)
qed

text \<open>The relative error of one rounding is at most half a unit in the last place.\<close>

lemma fround_error:
  "\<bar>fround p x - x\<bar> \<le> \<bar>x\<bar> / 2 ^ p"
proof (cases "x = 0")
  case True
  then show ?thesis by (simp add: fround_0)
next
  case nz: False
  define e where "e = binade x - int p + 1"
  define u :: real where "u = 2 powr of_int e"
  have u: "0 < u" by (simp add: u_def)
  have "fround p x - x = (of_int (rne (x / u)) - x / u) * u"
    using nz u by (simp add: fround_scaled e_def u_def algebra_simps)
  then have "\<bar>fround p x - x\<bar> = \<bar>of_int (rne (x / u)) - x / u\<bar> * u"
    using u by (simp add: abs_mult)
  also have "\<dots> \<le> 1/2 * u"
    using rne_close [of "x / u"] u by (intro mult_right_mono) simp_all
  finally have half: "\<bar>fround p x - x\<bar> \<le> u / 2" by simp
  have "of_int e = of_int (binade x) + (1 - real p)" by (simp add: e_def)
  then have "u = 2 powr of_int (binade x) * 2 powr (1 - real p)"
    unfolding u_def by (simp only: powr_add)
  also have "2 powr (1 - real p) = 2 / (2::real) ^ p"
    by (simp add: powr_diff powr_realpow)
  finally have "u / 2 = 2 powr of_int (binade x) / 2 ^ p" by simp
  also have "\<dots> \<le> \<bar>x\<bar> / 2 ^ p"
    using binade_bounds(1) [OF nz] by (simp add: divide_right_mono)
  finally show ?thesis using half by linarith
qed

text \<open>A number that has a significand of \<open>p\<close> bits is not changed by rounding.\<close>

lemma fround_exact:
  assumes "\<bar>m\<bar> < 2 ^ p" and "x = of_int m * 2 powr of_int k"
  shows "fround p x = x"
proof (cases "x = 0")
  case True
  then show ?thesis by (simp add: fround_0)
next
  case nz: False
  define e where "e = binade x - int p + 1"
  have "\<bar>x\<bar> = of_int \<bar>m\<bar> * 2 powr of_int k"
    by (simp add: assms(2) abs_mult)
  also have "\<dots> < 2 ^ p * 2 powr of_int k"
  proof -
    have "(of_int \<bar>m\<bar> :: real) < of_int (2 ^ p)" using assms(1) by (simp only: of_int_less_iff)
    then have "(of_int \<bar>m\<bar> :: real) < 2 ^ p" by simp
    then show ?thesis by (simp del: of_int_abs)
  qed
  also have "\<dots> = 2 powr (of_int (int p) + of_int k)"
    by (simp add: powr_add powr_realpow)
  finally have "2 powr of_int (binade x) < (2::real) powr (of_int (int p) + of_int k)"
    using binade_bounds(1) [OF nz] by linarith
  then have "of_int (binade x) < (of_int (int p) + of_int k :: real)" by simp
  then have "binade x < int p + k" by linarith
  then have ek: "e \<le> k" by (simp add: e_def)
  have "2 powr of_int k = (2::real) powr (of_int (k - e) + of_int e)" by simp
  also have "\<dots> = 2 powr of_int (k - e) * 2 powr of_int e" by (simp only: powr_add)
  also have "2 powr of_int (k - e) = (2::real) ^ nat (k - e)"
    using ek by (intro two_powr_int) simp
  finally have q: "x / 2 powr of_int e = of_int (m * 2 ^ nat (k - e))"
    by (simp add: assms(2))
  from q have "rne (x / 2 powr of_int e) = m * 2 ^ nat (k - e)"
    by (simp only: rne_of_int)
  then have "fround p x = of_int (m * 2 ^ nat (k - e)) * 2 powr of_int e"
    using nz by (simp add: fround_scaled e_def)
  also have "\<dots> = x / 2 powr of_int e * 2 powr of_int e"
    by (simp only: q)
  also have "\<dots> = x" by simp
  finally show ?thesis .
qed

lemma fround_of_nat:
  assumes "n < 2 ^ p"
  shows "fround p (real n) = real n"
proof -
  have "int n < int (2 ^ p)" using assms by (simp only: of_nat_less_iff)
  then have "\<bar>int n\<bar> < 2 ^ p" by simp
  moreover have "real n = of_int (int n) * 2 powr of_int 0" by simp
  ultimately show ?thesis by (rule fround_exact)
qed

lemma f32_0: "f32 0 = 0"
  by (simp add: f32_def fround_0)

lemma f64_0: "f64 0 = 0"
  by (simp add: f64_def fround_0)

lemma f32_nonneg: "0 \<le> x \<Longrightarrow> 0 \<le> f32 x"
  by (simp add: f32_def fround_nonneg)

lemma f64_nonneg: "0 \<le> x \<Longrightarrow> 0 \<le> f64 x"
  by (simp add: f64_def fround_nonneg)

lemma f32_pos: "0 < x \<Longrightarrow> 0 < f32 x"
  by (simp add: f32_def fround_pos)

lemma f64_pos: "0 < x \<Longrightarrow> 0 < f64 x"
  by (simp add: f64_def fround_pos)

lemma f32_error: "\<bar>f32 x - x\<bar> \<le> \<bar>x\<bar> / 2 ^ 24"
  unfolding f32_def by (rule fround_error)

lemma f64_error: "\<bar>f64 x - x\<bar> \<le> \<bar>x\<bar> / 2 ^ 53"
  unfolding f64_def by (rule fround_error)

lemma f32_bounds:
  assumes "0 \<le> x"
  shows "x * (1 - 1 / 2 ^ 24) \<le> f32 x" and "f32 x \<le> x * (1 + 1 / 2 ^ 24)"
proof -
  have "\<bar>f32 x - x\<bar> \<le> x / 2 ^ 24" using f32_error [of x] assms by simp
  then have "x - x / 2 ^ 24 \<le> f32 x" "f32 x \<le> x + x / 2 ^ 24" by linarith+
  then show "x * (1 - 1 / 2 ^ 24) \<le> f32 x" and "f32 x \<le> x * (1 + 1 / 2 ^ 24)"
    by (simp_all add: algebra_simps)
qed

lemma f64_bounds:
  assumes "0 \<le> x"
  shows "x * (1 - 1 / 2 ^ 53) \<le> f64 x" and "f64 x \<le> x * (1 + 1 / 2 ^ 53)"
proof -
  have "\<bar>f64 x - x\<bar> \<le> x / 2 ^ 53" using f64_error [of x] assms by simp
  then have "x - x / 2 ^ 53 \<le> f64 x" "f64 x \<le> x + x / 2 ^ 53" by linarith+
  then show "x * (1 - 1 / 2 ^ 53) \<le> f64 x" and "f64 x \<le> x * (1 + 1 / 2 ^ 53)"
    by (simp_all add: algebra_simps)
qed

lemma f32_60: "f32 60 = 60"
  by code_simp

lemma f64_60: "f64 60 = 60"
  by code_simp

lemma f64_1e6: "f64 1000000 = 1000000"
  by code_simp

lemma f64_unat32: "f64 (real (unat (w :: uint32_t))) = real (unat w)"
proof -
  have "unat w < 2 ^ 32" using unsigned_less [of w] by simp
  then have "unat w < 2 ^ 53" by simp
  then show ?thesis unfolding f64_def by (rule fround_of_nat)
qed

lemma f64_unat8: "f64 (real (unat (w :: uint8_t))) = real (unat w)"
proof -
  have "unat w < 2 ^ 8" using unsigned_less [of w] by simp
  then have "unat w < 2 ^ 53" by simp
  then show ?thesis unfolding f64_def by (rule fround_of_nat)
qed

lemma f64_product:
  "f64 (real (unat (i :: uint32_t)) * real (unat (m :: uint8_t))) = real (unat i) * real (unat m)"
proof -
  have i: "unat i < 2 ^ 32" using unsigned_less [of i] by simp
  have m: "unat m < 2 ^ 8" using unsigned_less [of m] by simp
  have "unat i * unat m < 2 ^ 32 * 2 ^ 8"
    using i m by (intro mult_strict_mono) simp_all
  then have "unat i * unat m < 2 ^ 53" by simp
  then have "fround 53 (real (unat i * unat m)) = real (unat i * unat m)"
    by (rule fround_of_nat)
  then show ?thesis by (simp add: f64_def del: of_nat_unat)
qed

lemma WHEEL_value: "WHEEL_CIRCUMFERENCE_M = 14092861 / 67108864"
  by code_simp

lemma mps_to_kph_value: "mps_to_kph = 7549747 / 2097152"
  by code_simp

lemma WHEEL_nonneg: "0 \<le> WHEEL_CIRCUMFERENCE_M"
  by (simp add: WHEEL_CIRCUMFERENCE_M_def f32_nonneg)

lemma mps_to_kph_nonneg: "0 \<le> mps_to_kph"
  by (simp add: mps_to_kph_def f32_nonneg)

lemma kph_nonneg: "0 \<le> v \<Longrightarrow> 0 \<le> mul_f32 v mps_to_kph"
  unfolding mul_f32_def by (intro f32_nonneg mult_nonneg_nonneg mps_to_kph_nonneg)

text \<open>Two relative errors in a row.\<close>

lemma rel_error_step:
  fixes t a b :: real
  assumes "0 \<le> t" and "\<bar>a - t\<bar> \<le> t * \<alpha>" and "\<bar>b - a\<bar> \<le> \<bar>a\<bar> * \<beta>" and "0 \<le> \<beta>"
  shows "\<bar>b - t\<bar> \<le> t * (\<alpha> + \<beta> + \<alpha> * \<beta>)"
proof -
  have "\<bar>a\<bar> \<le> t + t * \<alpha>" using assms(1,2) by linarith
  then have "\<bar>a\<bar> * \<beta> \<le> (t + t * \<alpha>) * \<beta>" using assms(4) by (rule mult_right_mono)
  then have "\<bar>b - a\<bar> \<le> (t + t * \<alpha>) * \<beta>" using assms(3) by linarith
  moreover have "\<bar>b - t\<bar> \<le> \<bar>b - a\<bar> + \<bar>a - t\<bar>" by linarith
  ultimately have "\<bar>b - t\<bar> \<le> (t + t * \<alpha>) * \<beta> + t * \<alpha>" using assms(2) by linarith
  then show ?thesis by (simp add: algebra_simps)
qed

section \<open>The helpers and the loop: basic facts\<close>

lemma isr_accept:
  "MIN_PULSE_GAP_US \<le> now - g_lastPulseMicros s \<Longrightarrow>
   isr_ky024 now s = \<lparr>g_pulseCount = g_pulseCount s + 1, g_lastPulseMicros = now,
                      g_lastIntervalMicros = now - g_lastPulseMicros s\<rparr>"
  by (simp add: isr_ky024_def Let_def)

lemma isr_reject:
  "now - g_lastPulseMicros s < MIN_PULSE_GAP_US \<Longrightarrow> isr_ky024 now s = s"
  by (simp add: isr_ky024_def Let_def not_le [symmetric])

lemma accepted_none: "accepted ts s = 0 \<Longrightarrow> edges ts s = s"
proof (induction ts arbitrary: s)
  case Nil
  then show ?case by simp
next
  case (Cons now ts)
  from Cons.prems have rej: "\<not> MIN_PULSE_GAP_US \<le> now - g_lastPulseMicros s"
    and rest: "accepted ts (isr_ky024 now s) = 0"
    by (auto split: if_splits)
  from rej have "isr_ky024 now s = s" by (simp add: isr_ky024_def Let_def)
  with rest Cons.IH [of s] show ?case by simp
qed

lemma rpm_value:
  assumes "i \<noteq> 0" and "m \<noteq> 0"
  shows "rpmFromInterval i m =
    Some (f32 (f64 (f64 (1000000 / (real (unat i) * real (unat m))) * 60)))"
proof -
  have "unat i \<noteq> 0" "unat m \<noteq> 0" using assms by (simp_all add: unat_eq_0)
  then have "real (unat i) * real (unat m) \<noteq> 0" by (simp del: of_nat_unat)
  then show ?thesis
    using assms
    by (simp add: rpmFromInterval_def div_f64_def f64_unat32 f64_unat8 f64_product f64_60 f64_1e6
          mul_f64_def del: of_nat_unat)
qed

lemma rpm_error:
  assumes "i \<noteq> 0" and "m \<noteq> 0"
  shows "\<exists>r. rpmFromInterval i m = Some r \<and>
     \<bar>r - 60000000 / (real (unat i) * real (unat m))\<bar>
       \<le> 60000000 / (real (unat i) * real (unat m)) / 2 ^ 23"
proof -
  define P where "P = real (unat i) * real (unat m)"
  have "unat i \<noteq> 0" "unat m \<noteq> 0" using assms by (simp_all add: unat_eq_0)
  then have P: "0 < P" by (simp add: P_def del: of_nat_unat)
  define q where "q = f64 (1000000 / P)"
  define r2 where "r2 = f64 (q * 60)"
  define r where "r = f32 r2"
  have val: "rpmFromInterval i m = Some r"
    using rpm_value [OF assms] by (simp add: r_def r2_def q_def P_def)
  define T where "T = 60000000 / P"
  have T: "0 \<le> T" using P by (simp add: T_def)
  have "\<bar>q - 1000000 / P\<bar> \<le> \<bar>1000000 / P\<bar> / 2 ^ 53"
    unfolding q_def by (rule f64_error)
  moreover have "q * 60 - T = 60 * (q - 1000000 / P)" "\<bar>1000000 / P\<bar> * 60 = T"
    using P by (simp_all add: T_def)
  ultimately have "\<bar>q * 60 - T\<bar> \<le> T * (1 / 2 ^ 53)"
    by (simp add: abs_mult)
  then have e1: "\<bar>q * 60 - T\<bar> \<le> T * (1 / 2 ^ 53)" .
  have s2: "\<bar>r2 - q * 60\<bar> \<le> \<bar>q * 60\<bar> * (1 / 2 ^ 53)"
    using f64_error [of "q * 60"] by (simp add: r2_def)
  define \<alpha> :: real where "\<alpha> = 1 / 2 ^ 53 + 1 / 2 ^ 53 + 1 / 2 ^ 53 * (1 / 2 ^ 53)"
  have e2: "\<bar>r2 - T\<bar> \<le> T * \<alpha>"
    unfolding \<alpha>_def by (rule rel_error_step [OF T e1 s2]) simp
  have s3: "\<bar>r - r2\<bar> \<le> \<bar>r2\<bar> * (1 / 2 ^ 24)"
    using f32_error [of r2] by (simp add: r_def)
  have "\<bar>r - T\<bar> \<le> T * (\<alpha> + 1 / 2 ^ 24 + \<alpha> * (1 / 2 ^ 24))"
    by (rule rel_error_step [OF T e2 s3]) simp
  also have "\<dots> \<le> T * (1 / 2 ^ 23)"
    using T by (intro mult_left_mono) (simp_all add: \<alpha>_def)
  finally have "\<bar>r - T\<bar> \<le> T / 2 ^ 23" by simp
  with val show ?thesis unfolding T_def P_def by blast
qed

lemma rpm_total: "\<exists>r. rpmFromInterval i m = Some r \<and> 0 \<le> r"
proof (cases "i = 0 \<or> m = 0")
  case True
  then show ?thesis by (auto simp: rpmFromInterval_def)
next
  case False
  then have nz: "i \<noteq> 0" "m \<noteq> 0" by simp_all
  have "0 \<le> 1000000 / (real (unat i) * real (unat m))" by (simp del: of_nat_unat)
  then have "0 \<le> f64 (1000000 / (real (unat i) * real (unat m))) * 60"
    by (simp add: f64_nonneg del: of_nat_unat)
  then have "0 \<le> f32 (f64 (f64 (1000000 / (real (unat i) * real (unat m))) * 60))"
    by (intro f32_nonneg f64_nonneg)
  then show ?thesis using rpm_value [OF nz] by simp
qed

lemma speed_value: "speedMpsFromRPM r c = Some (f32 (f32 (r * c) / 60))"
  by (simp add: speedMpsFromRPM_def div_f32_def mul_f32_def f32_60)

lemma estimate_value:
  "rpmFromInterval i m = Some r \<Longrightarrow> estimate i m c = Some (r, f32 (f32 (r * c) / 60))"
  by (simp add: estimate_def speed_value)

lemma estimate_total:
  "\<exists>r v. estimate i m c = Some (r, v) \<and> 0 \<le> r \<and> (0 \<le> c \<longrightarrow> 0 \<le> v)"
proof -
  obtain r where r: "rpmFromInterval i m = Some r" "0 \<le> r" using rpm_total by blast
  have "0 \<le> f32 (f32 (r * c) / 60)" if "0 \<le> c"
    using that r(2) by (intro f32_nonneg divide_nonneg_nonneg f32_nonneg mult_nonneg_nonneg) simp_all
  then show ?thesis using estimate_value [OF r(1)] r(2) by simp
qed

lemma loop_speed_total:
  "\<exists>r v. loop_speed snapshot nowUs = Some (r, v) \<and> 0 \<le> r \<and> 0 \<le> v"
  using estimate_total [of "g_lastIntervalMicros snapshot" MAGNETS_PER_REV WHEEL_CIRCUMFERENCE_M]
  by (auto simp: loop_speed_def WHEEL_nonneg)

lemma loop_value:
  assumes "loop_speed snapshot nowUs = Some (r, v)"
  shows "loop nowMs hallRaw snapshot nowUs st =
     Some (if 100 \<le> nowMs - lastSendMs st
           then (\<lparr>lastSendMs = nowMs,
                   tx = \<lparr>speed_mps = v, speed_kph = mul_f32 v mps_to_kph, rpm = r,
                          hall_raw = hallRaw, millis_ts = nowMs\<rparr>\<rparr>,
                 Some \<lparr>speed_mps = v, speed_kph = mul_f32 v mps_to_kph, rpm = r,
                        hall_raw = hallRaw, millis_ts = nowMs\<rparr>)
           else (st, None))"
  using assms by (simp add: loop_def Let_def)

lemma loop_total:
  "\<exists>r v. 0 \<le> r \<and> 0 \<le> v \<and> loop_speed snapshot nowUs = Some (r, v) \<and>
     loop nowMs hallRaw snapshot nowUs st =
     Some (if 100 \<le> nowMs - lastSendMs st
           then (\<lparr>lastSendMs = nowMs,
                   tx = \<lparr>speed_mps = v, speed_kph = mul_f32 v mps_to_kph, rpm = r,
                          hall_raw = hallRaw, millis_ts = nowMs\<rparr>\<rparr>,
                 Some \<lparr>speed_mps = v, speed_kph = mul_f32 v mps_to_kph, rpm = r,
                        hall_raw = hallRaw, millis_ts = nowMs\<rparr>)
           else (st, None))"
proof -
  obtain r v where rv: "loop_speed snapshot nowUs = Some (r, v)" "0 \<le> r" "0 \<le> v"
    using loop_speed_total by blast
  show ?thesis using rv loop_value [OF rv(1)] by blast
qed

lemma since_exact:
  assumes "d < 2 ^ 32"
  shows "unat (sinceLastPulseMs (t0 + of_nat d) t0) = d div 1000"
proof -
  have "unat (of_nat d :: uint32_t) = d"
    using assms by (simp add: unat_of_nat)
  then show ?thesis by (simp add: sinceLastPulseMs_def unat_div)
qed

lemma loop_speed_zero_packet:
  assumes "loop_speed snapshot nowUs = Some (0, 0)"
  shows "loop nowMs hallRaw snapshot nowUs st =
     Some (if 100 \<le> nowMs - lastSendMs st
           then (\<lparr>lastSendMs = nowMs,
                   tx = \<lparr>speed_mps = 0, speed_kph = 0, rpm = 0, hall_raw = hallRaw, millis_ts = nowMs\<rparr>\<rparr>,
                 Some \<lparr>speed_mps = 0, speed_kph = 0, rpm = 0, hall_raw = hallRaw, millis_ts = nowMs\<rparr>)
           else (st, None))"
  using assms by (simp add: loop_def mul_f32_def f32_0 Let_def)

lemma kph_error:
  assumes "0 \<le> v"
  shows "\<bar>mul_f32 v mps_to_kph - v * 3.6\<bar> \<le> v * 3.6 / 2 ^ 22"
proof -
  define t where "t = v * 3.6"
  have t: "0 \<le> t" using assms by (simp add: t_def)
  have "\<bar>mps_to_kph - 3.6\<bar> \<le> \<bar>3.6\<bar> / 2 ^ 24"
    unfolding mps_to_kph_def by (rule f32_error)
  then have "v * \<bar>mps_to_kph - 3.6\<bar> \<le> v * (\<bar>3.6\<bar> / 2 ^ 24)"
    using assms by (rule mult_left_mono)
  moreover have "v * mps_to_kph - t = v * (mps_to_kph - 3.6)"
    by (simp add: t_def algebra_simps)
  then have "\<bar>v * mps_to_kph - t\<bar> = v * \<bar>mps_to_kph - 3.6\<bar>"
    using assms by (simp add: abs_mult)
  ultimately have e1: "\<bar>v * mps_to_kph - t\<bar> \<le> t * (1 / 2 ^ 24)"
    by (simp add: t_def)
  have s2: "\<bar>mul_f32 v mps_to_kph - v * mps_to_kph\<bar> \<le> \<bar>v * mps_to_kph\<bar> * (1 / 2 ^ 24)"
    using f32_error [of "v * mps_to_kph"] by (simp add: mul_f32_def)
  have "\<bar>mul_f32 v mps_to_kph - t\<bar> \<le> t * (1 / 2 ^ 24 + 1 / 2 ^ 24 + 1 / 2 ^ 24 * (1 / 2 ^ 24))"
    by (rule rel_error_step [OF t e1 s2]) simp
  also have "\<dots> \<le> t * (1 / 2 ^ 22)"
    using t by (intro mult_left_mono) simp_all
  finally show ?thesis by (simp add: t_def)
qed

text \<open>
  The values of the helpers and of the loop lie in the normal range of their format:
  for binary64 from \<open>2 ^ - 1022\<close> to just below \<open>2 ^ 1024\<close>, for binary32 from
  \<open>2 ^ - 126\<close> to just below \<open>2 ^ 128\<close>. The product of the two converted arguments of
  \<open>rpmFromInterval\<close> is an integer below \<open>2 ^ 40\<close> and exact (lemma \<open>f64_product\<close>).
\<close>

lemma rev_per_sec_in_range:
  fixes i :: uint32_t and m :: uint8_t
  assumes "i \<noteq> 0" and "m \<noteq> 0"
  defines "q \<equiv> f64 (1000000 / (real (unat i) * real (unat m)))"
  shows "1 / 2 ^ 21 \<le> q" and "q \<le> 2 ^ 20" and "1 / 2 ^ 15 \<le> f64 (q * 60)" and "f64 (q * 60) \<le> 2 ^ 26"
proof -
  define P where "P = real (unat i) * real (unat m)"
  define x where "x = 1000000 / P"
  have "unat i < 2 ^ 32" using unsigned_less [of i] by simp
  then have i: "real (unat i) \<le> 2 ^ 32" by (simp del: of_nat_unat)
  have "unat m < 2 ^ 8" using unsigned_less [of m] by simp
  then have m: "real (unat m) \<le> 2 ^ 8" by (simp del: of_nat_unat)
  have "0 < unat i" "0 < unat m" using assms(1,2) by (simp_all add: unat_gt_0)
  then have "1 \<le> unat i * unat m" by (simp add: Suc_leI)
  then have "real 1 \<le> real (unat i * unat m)" by (simp only: of_nat_le_iff)
  then have P1: "1 \<le> P" by (simp add: P_def del: of_nat_unat)
  have "P \<le> 2 ^ 32 * 2 ^ 8"
    unfolding P_def using i m by (intro mult_mono) (simp_all del: of_nat_unat)
  then have P2: "P \<le> 2 ^ 40" by simp
  have "1000000 / 2 ^ 40 \<le> x" unfolding x_def using P1 P2 by (intro divide_left_mono) simp_all
  then have lo: "15625 / 17179869184 \<le> x" by simp
  have hi: "x \<le> 1000000" unfolding x_def using P1 by (simp add: divide_le_eq)
  from lo have x0: "0 \<le> x" by linarith
  have q: "q = f64 x" by (simp add: q_def x_def P_def)
  have "x - x / 9007199254740992 \<le> q" "q \<le> x + x / 9007199254740992"
    using f64_bounds [OF x0] by (simp_all add: q algebra_simps)
  with lo hi have qb: "9 / 10000000 \<le> q" "q \<le> 1000001" by linarith+
  then have "1 / 2097152 \<le> q" "q \<le> 1048576" by linarith+
  then show "1 / 2 ^ 21 \<le> q" and "q \<le> 2 ^ 20" by simp_all
  define y where "y = q * 60"
  from qb have y: "54 / 1000000 \<le> y" "y \<le> 60000060" by (simp_all add: y_def)
  then have y0: "0 \<le> y" by linarith
  have "y - y / 9007199254740992 \<le> f64 y" "f64 y \<le> y + y / 9007199254740992"
    using f64_bounds [OF y0] by (simp_all add: algebra_simps)
  with y have "1 / 32768 \<le> f64 y" "f64 y \<le> 67108864" by linarith+
  then show "1 / 2 ^ 15 \<le> f64 (q * 60)" and "f64 (q * 60) \<le> 2 ^ 26" by (simp_all add: y_def)
qed

lemma rpm_in_range:
  assumes "i \<noteq> 0" and "m \<noteq> 0" and "rpmFromInterval i m = Some r"
  shows "1 / 2 ^ 15 \<le> r" and "r \<le> 2 ^ 26"
proof -
  define P where "P = real (unat i) * real (unat m)"
  define T where "T = 60000000 / P"
  have "unat i < 2 ^ 32" using unsigned_less [of i] by simp
  then have i: "real (unat i) \<le> 2 ^ 32" by (simp del: of_nat_unat)
  have "unat m < 2 ^ 8" using unsigned_less [of m] by simp
  then have m: "real (unat m) \<le> 2 ^ 8" by (simp del: of_nat_unat)
  have "0 < unat i" "0 < unat m" using assms(1,2) by (simp_all add: unat_gt_0)
  then have "1 \<le> unat i * unat m" by (simp add: Suc_leI)
  then have "real 1 \<le> real (unat i * unat m)" by (simp only: of_nat_le_iff)
  then have P1: "1 \<le> P" by (simp add: P_def del: of_nat_unat)
  have "P \<le> 2 ^ 32 * 2 ^ 8"
    unfolding P_def using i m by (intro mult_mono) (simp_all del: of_nat_unat)
  then have P2: "P \<le> 2 ^ 40" by simp
  have "60000000 / 2 ^ 40 \<le> T" unfolding T_def using P1 P2 by (intro divide_left_mono) simp_all
  then have lo: "234375 / 4294967296 \<le> T" by simp
  have hi: "T \<le> 60000000" unfolding T_def using P1 by (simp add: divide_le_eq)
  have "\<bar>r - T\<bar> \<le> T / 2 ^ 23"
    using rpm_error [OF assms(1,2)] assms(3) by (simp add: T_def P_def)
  then have "\<bar>r - T\<bar> \<le> T / 8388608" by simp
  then have "T - T / 8388608 \<le> r" "r \<le> T + T / 8388608" by linarith+
  with lo hi have "1 / 32768 \<le> r" "r \<le> 67108864" by linarith+
  then show "1 / 2 ^ 15 \<le> r" and "r \<le> 2 ^ 26" by simp_all
qed

lemma speed_in_range:
  assumes "1 / 2 ^ 15 \<le> r" and "r \<le> 2 ^ 26"
    and "speedMpsFromRPM r WHEEL_CIRCUMFERENCE_M = Some v"
  shows "1 / 2 ^ 24 \<le> v" and "v \<le> 2 ^ 18"
    and "1 / 2 ^ 23 \<le> mul_f32 v mps_to_kph" and "mul_f32 v mps_to_kph \<le> 2 ^ 20"
proof -
  define a where "a = r * WHEEL_CIRCUMFERENCE_M"
  define b where "b = f32 a"
  have r: "1 / 32768 \<le> r" "r \<le> 67108864" using assms(1,2) by simp_all
  have "a = r * 14092861 / 67108864" by (simp add: a_def WHEEL_value)
  with r have a: "1 / 200000 \<le> a" "a \<le> 14092861" by linarith+
  then have a0: "0 \<le> a" by linarith
  have b: "a - a / 16777216 \<le> b" "b \<le> a + a / 16777216"
    using f32_bounds [OF a0] by (simp_all add: b_def algebra_simps)
  with a have b': "1 / 262144 \<le> b" "b \<le> 14092862" by linarith+
  then have b0: "0 \<le> b / 60" by simp
  have v: "v = f32 (b / 60)"
    using assms(3) by (simp add: speed_value a_def b_def)
  have vb: "b / 60 - b / 1006632960 \<le> v" "v \<le> b / 60 + b / 1006632960"
    using f32_bounds [OF b0] by (simp_all add: v algebra_simps)
  with b' have v': "1 / 16777216 \<le> v" "v \<le> 262144" by linarith+
  then show "1 / 2 ^ 24 \<le> v" and "v \<le> 2 ^ 18" by simp_all
  define k where "k = v * mps_to_kph"
  have "k = v * 7549747 / 2097152" by (simp add: k_def mps_to_kph_value)
  with v' have k: "1 / 5000000 \<le> k" "k \<le> 1000000" by linarith+
  then have k0: "0 \<le> k" by linarith
  have "k - k / 16777216 \<le> f32 k" "f32 k \<le> k + k / 16777216"
    using f32_bounds [OF k0] by (simp_all add: algebra_simps)
  with k have "1 / 8388608 \<le> f32 k" "f32 k \<le> 1048576" by linarith+
  then show "1 / 2 ^ 23 \<le> mul_f32 v mps_to_kph" and "mul_f32 v mps_to_kph \<le> 2 ^ 20"
    by (simp_all add: mul_f32_def k_def)
qed

lemma loop_speed_in_range:
  assumes "loop_speed snapshot nowUs = Some (r, v)"
  shows "(r = 0 \<and> v = 0 \<and> mul_f32 v mps_to_kph = 0) \<or>
         (1 / 2 ^ 15 \<le> r \<and> r \<le> 2 ^ 26 \<and> 1 / 2 ^ 24 \<le> v \<and> v \<le> 2 ^ 18 \<and>
          1 / 2 ^ 23 \<le> mul_f32 v mps_to_kph \<and> mul_f32 v mps_to_kph \<le> 2 ^ 20)"
proof (cases "sinceLastPulseMs nowUs (g_lastPulseMicros snapshot) \<le> NO_PULSE_TIMEOUT_MS
              \<and> g_lastIntervalMicros snapshot > 0")
  case False
  with assms have "r = 0" "v = 0" by (auto simp: loop_speed_def)
  then show ?thesis by (simp add: mul_f32_def f32_0)
next
  case True
  then have i: "g_lastIntervalMicros snapshot \<noteq> 0" by auto
  have m: "MAGNETS_PER_REV \<noteq> 0" by (simp add: MAGNETS_PER_REV_def)
  from True assms
  have e: "estimate (g_lastIntervalMicros snapshot) MAGNETS_PER_REV WHEEL_CIRCUMFERENCE_M = Some (r, v)"
    by (simp add: loop_speed_def)
  then have r: "rpmFromInterval (g_lastIntervalMicros snapshot) MAGNETS_PER_REV = Some r"
    by (auto simp: estimate_def split: option.splits)
  with e have v: "speedMpsFromRPM r WHEEL_CIRCUMFERENCE_M = Some v"
    by (auto simp: estimate_def split: option.splits)
  note rr = rpm_in_range [OF i m r]
  note vv = speed_in_range [OF rr v]
  from rr vv show ?thesis by blast
qed

text \<open>
  The scenario of the specification: one magnet, an interval of 500000 microseconds, a
  circumference of \<open>0.210f\<close>.
\<close>

lemma scenario_rpm: "rpmFromInterval 500000 1 = Some 120"
proof -
  have "f32 (f64 (f64 (1000000 / (500000 * 1)) * 60)) = 120" by code_simp
  then show ?thesis using rpm_value [of 500000 1] by simp
qed

lemma scenario_estimate:
  "estimate 500000 1 WHEEL_CIRCUMFERENCE_M = Some (120, 14092861 / 33554432)"
proof -
  have "f32 (f32 (120 * WHEEL_CIRCUMFERENCE_M) / 60) = 14092861 / 33554432" by code_simp
  then show ?thesis
    using estimate_value [OF scenario_rpm, of WHEEL_CIRCUMFERENCE_M] by simp
qed

lemma scenario_kph: "mul_f32 (14092861 / 33554432) mps_to_kph = 12683575 / 8388608"
  by code_simp

lemma fresh_tick:
  "loop 3100 2048 fresh_snapshot 3100000 loop_startup =
     Some (\<lparr>lastSendMs = 3100,
             tx = \<lparr>speed_mps = 14092861 / 33554432, speed_kph = 12683575 / 8388608, rpm = 120,
                    hall_raw = 2048, millis_ts = 3100\<rparr>\<rparr>,
           Some \<lparr>speed_mps = 14092861 / 33554432, speed_kph = 12683575 / 8388608, rpm = 120,
                  hall_raw = 2048, millis_ts = 3100\<rparr>)"
proof -
  have "loop_speed fresh_snapshot 3100000 = Some (120, 14092861 / 33554432)"
    using scenario_estimate
    by (simp add: loop_speed_def fresh_snapshot_def sinceLastPulseMs_def NO_PULSE_TIMEOUT_MS_def
          MAGNETS_PER_REV_def)
  from loop_value [OF this, of 3100 2048 loop_startup] show ?thesis
    by (simp add: scenario_kph loop_startup_def)
qed

section \<open>The claims\<close>

text \<open>
  Claim C1, as the code has it. On the first accepted edge after startup, whatever edges
  were rejected before it, the handler sets the time of the last accepted edge to \<open>now\<close>
  and the count to \<open>1\<close>, and it stores the gap measured against the startup value \<open>0\<close> of
  \<open>g_lastPulseMicros\<close>, which is \<open>now\<close> itself, as the last interval: the first gap is
  kept, not discarded.
\<close>

theorem first_edge_keeps_gap:
  "accepted ts startup = 0 \<Longrightarrow> MIN_PULSE_GAP_US \<le> now \<Longrightarrow>
   isr_ky024 now (edges ts startup) =
     \<lparr>g_pulseCount = 1, g_lastPulseMicros = now, g_lastIntervalMicros = now\<rparr>"
  by (simp add: accepted_none) (simp add: isr_ky024_def startup_def Let_def)

theorem first_edge_keeps_gap_witness:
  "accepted [1000, 1500] startup = 0 \<and> MIN_PULSE_GAP_US \<le> 5000 \<and>
   isr_ky024 5000 (edges [1000, 1500] startup) =
     \<lparr>g_pulseCount = 1, g_lastPulseMicros = 5000, g_lastIntervalMicros = 5000\<rparr>"
proof -
  have a: "accepted [1000, 1500] startup = 0"
    by (simp add: isr_ky024_def startup_def MIN_PULSE_GAP_US_def Let_def)
  have b: "MIN_PULSE_GAP_US \<le> 5000"
    by (simp add: MIN_PULSE_GAP_US_def)
  from first_edge_keeps_gap [OF a b] a b show ?thesis by simp
qed

text \<open>
  Claim C1, as the specification states it, fails: an edge 5000 microseconds after startup
  is the first accepted one (the count goes from 0 to 1) and leaves 5000, not the zero
  "no valid measurement" value, in \<open>g_lastIntervalMicros\<close>.
\<close>

theorem first_edge_interval_counterexample:
  "g_pulseCount startup = 0 \<and>
   g_pulseCount (isr_ky024 5000 startup) = 1 \<and>
   g_lastPulseMicros (isr_ky024 5000 startup) = 5000 \<and>
   g_lastIntervalMicros (isr_ky024 5000 startup) = 5000 \<and>
   g_lastIntervalMicros (isr_ky024 5000 startup) \<noteq> 0"
  by (simp add: isr_ky024_def startup_def Let_def MIN_PULSE_GAP_US_def)

text \<open>
  Claim C2, as the code has it. Let \<open>d\<close> be the time in microseconds that has passed
  since the last accepted edge. A pass of the loop with \<open>601000 \<le> d < 2 ^ 32\<close>, that is
  with more than \<open>NO_PULSE_TIMEOUT_MS\<close> whole milliseconds elapsed and the counter not
  gone once around, or a pass whose snapshot comes from a run of the handler that has
  accepted no edge since startup, computes rpm 0 and speed 0 whatever interval is stored,
  and ends without a division by zero: a packet, if one is due, carries zeros in all
  three speed fields.
\<close>

theorem stale_reports_zero:
  assumes "(601000 \<le> d \<and> d < 2 ^ 32 \<and> nowUs = g_lastPulseMicros snapshot + of_nat d)
           \<or> (snapshot = edges ts startup \<and> accepted ts startup = 0)"
  shows "loop_speed snapshot nowUs = Some (0, 0) \<and>
     loop nowMs hallRaw snapshot nowUs st =
     Some (if 100 \<le> nowMs - lastSendMs st
           then (\<lparr>lastSendMs = nowMs,
                   tx = \<lparr>speed_mps = 0, speed_kph = 0, rpm = 0, hall_raw = hallRaw, millis_ts = nowMs\<rparr>\<rparr>,
                 Some \<lparr>speed_mps = 0, speed_kph = 0, rpm = 0, hall_raw = hallRaw, millis_ts = nowMs\<rparr>)
           else (st, None))"
proof -
  have "loop_speed snapshot nowUs = Some (0, 0)"
    using assms
  proof
    assume h: "601000 \<le> d \<and> d < 2 ^ 32 \<and> nowUs = g_lastPulseMicros snapshot + of_nat d"
    then have "unat (sinceLastPulseMs nowUs (g_lastPulseMicros snapshot)) = d div 1000"
      by (simp add: since_exact)
    moreover from h have "601 \<le> d div 1000" by linarith
    ultimately have "unat NO_PULSE_TIMEOUT_MS < unat (sinceLastPulseMs nowUs (g_lastPulseMicros snapshot))"
      by (simp add: NO_PULSE_TIMEOUT_MS_def)
    then have "NO_PULSE_TIMEOUT_MS < sinceLastPulseMs nowUs (g_lastPulseMicros snapshot)"
      by (simp add: word_less_nat_alt)
    then show ?thesis by (simp add: loop_speed_def not_le [symmetric])
  next
    assume "snapshot = edges ts startup \<and> accepted ts startup = 0"
    then have "snapshot = startup" by (simp add: accepted_none)
    then show ?thesis by (simp add: loop_speed_def startup_def)
  qed
  then show ?thesis by (simp add: loop_speed_zero_packet)
qed

theorem stale_reports_zero_witness:
  "(601000 :: nat) \<le> 700000 \<and> (700000 :: nat) < 2 ^ 32 \<and>
   710000 = g_lastPulseMicros (isr_ky024 10000 startup) + of_nat 700000 \<and>
   g_lastIntervalMicros (isr_ky024 10000 startup) = 10000 \<and>
   loop_speed (isr_ky024 10000 startup) 710000 = Some (0, 0) \<and>
   loop 710 2048 (isr_ky024 10000 startup) 710000 loop_startup =
     Some (\<lparr>lastSendMs = 710,
             tx = \<lparr>speed_mps = 0, speed_kph = 0, rpm = 0, hall_raw = 2048, millis_ts = 710\<rparr>\<rparr>,
           Some \<lparr>speed_mps = 0, speed_kph = 0, rpm = 0, hall_raw = 2048, millis_ts = 710\<rparr>) \<and>
   edges [1000, 1500] startup = startup \<and> accepted [1000, 1500] startup = 0 \<and>
   loop_speed (edges [1000, 1500] startup) 123456789 = Some (0, 0)"
proof -
  have a: "710000 = g_lastPulseMicros (isr_ky024 10000 startup) + of_nat 700000"
    by (simp add: isr_ky024_def startup_def MIN_PULSE_GAP_US_def Let_def)
  have b: "accepted [1000, 1500] startup = 0" "edges [1000, 1500] startup = startup"
    by (simp_all add: isr_ky024_def startup_def MIN_PULSE_GAP_US_def Let_def)
  have c: "g_lastIntervalMicros (isr_ky024 10000 startup) = 10000"
    by (simp add: isr_ky024_def startup_def MIN_PULSE_GAP_US_def Let_def)
  show ?thesis
    using stale_reports_zero [of 700000 710000 "isr_ky024 10000 startup" "[]" 710 2048 loop_startup]
      stale_reports_zero [of 0 123456789 "edges [1000, 1500] startup" "[1000, 1500]" 0 0 loop_startup]
      a b c
    by (simp add: loop_startup_def)
qed

text \<open>
  Claim C2, as the specification states it, fails in two ways. The loop compares whole
  milliseconds: 600999 microseconds after the last accepted edge, more than the timeout
  of 600 ms, it measures 600 and still reports 120 rpm. And the loop measures modulo
  \<open>2 ^ 32\<close> microseconds: \<open>2 ^ 32 + 100000\<close> microseconds after the last accepted edge it
  measures 100 ms and reports 120 rpm again.
\<close>

theorem stale_elapsed_counterexample:
  "(600 * 1000 :: nat) < 600999 \<and>
   (1000000 :: uint32_t) + of_nat 600999 = 1600999 \<and>
   loop_speed \<lparr>g_pulseCount = 2, g_lastPulseMicros = 1000000, g_lastIntervalMicros = 500000\<rparr>
     1600999 = Some (120, 14092861 / 33554432) \<and>
   (600 * 1000 :: nat) < 2 ^ 32 + 100000 \<and>
   (1000000 :: uint32_t) + of_nat (2 ^ 32 + 100000) = 1100000 \<and>
   loop_speed \<lparr>g_pulseCount = 2, g_lastPulseMicros = 1000000, g_lastIntervalMicros = 500000\<rparr>
     1100000 = Some (120, 14092861 / 33554432) \<and>
   Some (120, 14092861 / 33554432) \<noteq> Some (0 :: real, 0 :: real)"
  using scenario_estimate
  by (simp add: loop_speed_def sinceLastPulseMs_def NO_PULSE_TIMEOUT_MS_def MAGNETS_PER_REV_def)

text \<open>
  Claim C3. For a nonzero interval and a nonzero magnet count \<open>rpmFromInterval\<close> returns
  the quotient \<open>1e6 / (interval * magnets)\<close> rounded to double, times 60 rounded to
  double, narrowed to float; this differs from \<open>6e7 / (interval * magnets)\<close> by a
  relative error of at most \<open>2 ^ - 23\<close>. With one magnet, an interval of 500000
  microseconds and the circumference \<open>0.210f\<close> the rpm is exactly 120, the speed is
  \<open>14092861 / 2 ^ 25\<close> and the speed in km/h, its float product with \<open>3.6f\<close>, is
  \<open>12683575 / 2 ^ 23\<close>: within a relative error of \<open>2 ^ - 24\<close> of 0.42 and of 1.512.
\<close>

theorem rpm_formula:
  "(intervalMicros \<noteq> 0 \<and> magnetsPerRev \<noteq> 0 \<longrightarrow>
      (\<exists>r. rpmFromInterval intervalMicros magnetsPerRev = Some r \<and>
           r = f32 (f64 (f64 (1000000 / (real (unat intervalMicros) * real (unat magnetsPerRev))) * 60)) \<and>
           \<bar>r - 60000000 / (real (unat intervalMicros) * real (unat magnetsPerRev))\<bar>
             \<le> 60000000 / (real (unat intervalMicros) * real (unat magnetsPerRev)) / 2 ^ 23)) \<and>
   estimate 500000 1 WHEEL_CIRCUMFERENCE_M = Some (120, 14092861 / 33554432) \<and>
   mul_f32 (14092861 / 33554432) mps_to_kph = 12683575 / 8388608 \<and>
   \<bar>14092861 / 33554432 - 0.42\<bar> \<le> (0.42 / 2 ^ 24 :: real) \<and>
   \<bar>12683575 / 8388608 - 1.512\<bar> \<le> (1.512 / 2 ^ 24 :: real)"
proof -
  have general: "\<exists>r. rpmFromInterval intervalMicros magnetsPerRev = Some r \<and>
           r = f32 (f64 (f64 (1000000 / (real (unat intervalMicros) * real (unat magnetsPerRev))) * 60)) \<and>
           \<bar>r - 60000000 / (real (unat intervalMicros) * real (unat magnetsPerRev))\<bar>
             \<le> 60000000 / (real (unat intervalMicros) * real (unat magnetsPerRev)) / 2 ^ 23"
    if "intervalMicros \<noteq> 0" "magnetsPerRev \<noteq> 0"
    using rpm_error [OF that] rpm_value [OF that] by auto
  note scenario = scenario_estimate
  note kph = scenario_kph
  have tol: "\<bar>14092861 / 33554432 - 0.42\<bar> \<le> (0.42 / 2 ^ 24 :: real)"
     "\<bar>12683575 / 8388608 - 1.512\<bar> \<le> (1.512 / 2 ^ 24 :: real)"
    by simp_all
  show ?thesis using general scenario kph tol by blast
qed

theorem rpm_formula_witness:
  "(3 :: uint32_t) \<noteq> 0 \<and> (7 :: uint8_t) \<noteq> 0 \<and>
   rpmFromInterval 3 7 = Some (11428571 / 4) \<and>
   \<bar>11428571 / 4 - 60000000 / (3 * 7)\<bar> \<le> (60000000 / (3 * 7) / 2 ^ 23 :: real)"
proof -
  have "rpmFromInterval 3 7 = Some (11428571 / 4)" by code_simp
  then show ?thesis using rpm_formula [of 3 7] by simp
qed

text \<open>
  Claim C4. With a zero interval, or with a zero magnet count, the estimate is the pair
  (0, 0) for every circumference, and it is a value, not a fault.
\<close>

theorem estimate_degenerate:
  "estimate 0 n c = Some (0, 0) \<and> estimate t 0 c = Some (0, 0)"
  by (simp add: estimate_def rpmFromInterval_def speed_value f32_0)

text \<open>
  Claim C5. An edge whose gap to the last accepted edge is below \<open>MIN_PULSE_GAP_US\<close>
  leaves all three fields as they were. Hence of two raw edges closer than
  \<open>MIN_PULSE_GAP_US\<close> at most one is accepted, whatever the state before them, and
  exactly one when the first of the two is accepted: the second is then dropped and
  \<open>g_pulseCount\<close> has gone up by one, not by two.
\<close>

theorem debounce_rejects:
  "(now - g_lastPulseMicros s < MIN_PULSE_GAP_US \<longrightarrow> isr_ky024 now s = s) \<and>
   (t2 - t1 < MIN_PULSE_GAP_US \<longrightarrow>
      accepted [t1, t2] s0 \<le> 1 \<and>
      g_pulseCount (isr_ky024 t2 (isr_ky024 t1 s0)) \<in> {g_pulseCount s0, g_pulseCount s0 + 1}) \<and>
   (t2 - t1 < MIN_PULSE_GAP_US \<and> MIN_PULSE_GAP_US \<le> t1 - g_lastPulseMicros s0 \<longrightarrow>
      accepted [t1, t2] s0 = 1 \<and>
      isr_ky024 t2 (isr_ky024 t1 s0) = isr_ky024 t1 s0 \<and>
      g_pulseCount (isr_ky024 t2 (isr_ky024 t1 s0)) = g_pulseCount s0 + 1)"
proof -
  have count_one: "accepted [t1, t2] s0 = 1"
    if "t2 - t1 < MIN_PULSE_GAP_US" "MIN_PULSE_GAP_US \<le> t1 - g_lastPulseMicros s0"
    using that by (simp add: isr_accept not_le [symmetric])
  have count_le: "accepted [t1, t2] s0 \<le> 1" if close: "t2 - t1 < MIN_PULSE_GAP_US"
  proof (cases "MIN_PULSE_GAP_US \<le> t1 - g_lastPulseMicros s0")
    case True
    with close count_one show ?thesis by simp
  next
    case False
    then have "isr_ky024 t1 s0 = s0" by (simp add: isr_reject)
    with False show ?thesis by simp
  qed
  have second_dropped: "isr_ky024 t2 (isr_ky024 t1 s0) = isr_ky024 t1 s0"
    if "t2 - t1 < MIN_PULSE_GAP_US" "MIN_PULSE_GAP_US \<le> t1 - g_lastPulseMicros s0"
    using that by (simp add: isr_accept isr_reject)
  have once: "g_pulseCount (isr_ky024 t2 (isr_ky024 t1 s0)) = g_pulseCount s0 + 1"
    if "t2 - t1 < MIN_PULSE_GAP_US" "MIN_PULSE_GAP_US \<le> t1 - g_lastPulseMicros s0"
    using that second_dropped by (simp add: isr_accept)
  have at_most_once:
    "g_pulseCount (isr_ky024 t2 (isr_ky024 t1 s0)) \<in> {g_pulseCount s0, g_pulseCount s0 + 1}"
    if close: "t2 - t1 < MIN_PULSE_GAP_US"
  proof (cases "MIN_PULSE_GAP_US \<le> t1 - g_lastPulseMicros s0")
    case True
    with close once show ?thesis by simp
  next
    case False
    then have "isr_ky024 t1 s0 = s0" by (simp add: isr_reject)
    then show ?thesis by (simp add: isr_ky024_def Let_def)
  qed
  show ?thesis
    using isr_reject [of now s] second_dropped once at_most_once count_one count_le by blast
qed

theorem debounce_rejects_witness:
  "(10500 - g_lastPulseMicros (isr_ky024 10000 startup) < MIN_PULSE_GAP_US \<and>
      isr_ky024 10500 (isr_ky024 10000 startup) = isr_ky024 10000 startup) \<and>
   ((10500 :: uint32_t) - 10000 < MIN_PULSE_GAP_US \<and>
      MIN_PULSE_GAP_US \<le> 10000 - g_lastPulseMicros startup \<and>
      accepted [10000, 10500] startup = 1 \<and>
      g_pulseCount (isr_ky024 10500 (isr_ky024 10000 startup)) = g_pulseCount startup + 1 \<and>
      g_pulseCount (isr_ky024 10500 (isr_ky024 10000 startup)) = 1)"
  using debounce_rejects [of 10500 "isr_ky024 10000 startup" 10500 10000 startup]
  by (simp add: isr_ky024_def startup_def Let_def MIN_PULSE_GAP_US_def)

text \<open>
  Claim C6. Both durations are differences of \<open>uint32_t\<close> values, taken modulo \<open>2 ^ 32\<close>:
  when \<open>d\<close> microseconds have passed since the earlier reading, the gap of the handler is
  \<open>d mod 2 ^ 32\<close> and the elapsed time of the loop is that value in whole milliseconds,
  wherever the earlier reading lies relative to the wrap of the counter. So a duration
  below \<open>2 ^ 32\<close> microseconds is measured exactly, also across a wrap, and an accepted
  edge stores exactly that duration.
\<close>

theorem wrap_safe_durations:
  "unat ((t0 + of_nat d) - t0 :: uint32_t) = d mod 2 ^ 32 \<and>
   unat (sinceLastPulseMs (t0 + of_nat d) t0) = (d mod 2 ^ 32) div 1000 \<and>
   (d < 2 ^ 32 \<longrightarrow> unat MIN_PULSE_GAP_US \<le> d \<longrightarrow>
      unat (g_lastIntervalMicros (isr_ky024 (g_lastPulseMicros s + of_nat d) s)) = d) \<and>
   (d < 2 ^ 32 \<longrightarrow> unat (sinceLastPulseMs (t0 + of_nat d) t0) = d div 1000)"
proof -
  have gap: "unat ((x + of_nat d) - x :: uint32_t) = d mod 2 ^ 32" for x
    by (simp add: unat_of_nat)
  have ms: "unat (sinceLastPulseMs (t0 + of_nat d) t0) = (d mod 2 ^ 32) div 1000"
    by (simp add: sinceLastPulseMs_def unat_div unat_of_nat)
  have isr: "unat (g_lastIntervalMicros (isr_ky024 (g_lastPulseMicros s + of_nat d) s)) = d"
    if "d < 2 ^ 32" "unat MIN_PULSE_GAP_US \<le> d"
  proof -
    have "unat (of_nat d :: uint32_t) = d"
      using that(1) by (simp add: unat_of_nat)
    then have "MIN_PULSE_GAP_US \<le> (of_nat d :: uint32_t)"
      using that(2) by (simp add: word_le_nat_alt)
    then show ?thesis
      using \<open>unat (of_nat d :: uint32_t) = d\<close> by (simp add: isr_ky024_def Let_def)
  qed
  show ?thesis
    using gap [of t0] ms isr by simp
qed

theorem wrap_safe_durations_witness:
  "unat ((0xFFFFFF00 + of_nat 5000) - 0xFFFFFF00 :: uint32_t) = 5000 mod 2 ^ 32 \<and>
   (0xFFFFFF00 + of_nat 5000 :: uint32_t) = 4744 \<and>
   (5000 :: nat) < 2 ^ 32 \<and> unat MIN_PULSE_GAP_US \<le> 5000 \<and>
   unat (g_lastIntervalMicros (isr_ky024 (0xFFFFFF00 + of_nat 5000)
      \<lparr>g_pulseCount = 7, g_lastPulseMicros = 0xFFFFFF00, g_lastIntervalMicros = 9\<rparr>)) = 5000 \<and>
   unat (sinceLastPulseMs (0xFFFFFF00 + of_nat 5000) 0xFFFFFF00) = 5000 div 1000"
  using wrap_safe_durations [of "0xFFFFFF00" 5000
      "\<lparr>g_pulseCount = 7, g_lastPulseMicros = 0xFFFFFF00, g_lastIntervalMicros = 9\<rparr>"]
  by (simp add: MIN_PULSE_GAP_US_def)

text \<open>
  Claim C7. In every packet the loop sends, \<open>speed_kph\<close> is the float product of the
  packet's own \<open>speed_mps\<close> and \<open>3.6f\<close>, computed when the packet is assembled; it is
  within a relative error of \<open>2 ^ - 22\<close> of the real product with 3.6, and the packet is
  the one stored in \<open>tx\<close>.
\<close>

theorem kph_is_derived:
  "loop nowMs hallRaw snapshot nowUs st = Some (st', Some pkt) \<longrightarrow>
     speed_kph pkt = mul_f32 (speed_mps pkt) mps_to_kph \<and>
     \<bar>speed_kph pkt - speed_mps pkt * 3.6\<bar> \<le> speed_mps pkt * 3.6 / 2 ^ 22 \<and>
     tx st' = pkt"
proof
  assume sent: "loop nowMs hallRaw snapshot nowUs st = Some (st', Some pkt)"
  obtain r v where rv: "0 \<le> v"
    "loop nowMs hallRaw snapshot nowUs st =
     Some (if 100 \<le> nowMs - lastSendMs st
           then (\<lparr>lastSendMs = nowMs,
                   tx = \<lparr>speed_mps = v, speed_kph = mul_f32 v mps_to_kph, rpm = r,
                          hall_raw = hallRaw, millis_ts = nowMs\<rparr>\<rparr>,
                 Some \<lparr>speed_mps = v, speed_kph = mul_f32 v mps_to_kph, rpm = r,
                        hall_raw = hallRaw, millis_ts = nowMs\<rparr>)
           else (st, None))"
    using loop_total [of snapshot nowUs nowMs hallRaw st] by blast
  from sent rv(2) have pkt: "pkt = \<lparr>speed_mps = v, speed_kph = mul_f32 v mps_to_kph, rpm = r,
                        hall_raw = hallRaw, millis_ts = nowMs\<rparr>" and st': "tx st' = pkt"
    by (auto split: if_splits)
  show "speed_kph pkt = mul_f32 (speed_mps pkt) mps_to_kph \<and>
     \<bar>speed_kph pkt - speed_mps pkt * 3.6\<bar> \<le> speed_mps pkt * 3.6 / 2 ^ 22 \<and>
     tx st' = pkt"
    using kph_error [OF rv(1)] st' by (simp add: pkt)
qed

theorem kph_is_derived_witness:
  "loop 3100 2048 fresh_snapshot 3100000 loop_startup =
     Some (\<lparr>lastSendMs = 3100,
             tx = \<lparr>speed_mps = 14092861 / 33554432, speed_kph = 12683575 / 8388608, rpm = 120,
                    hall_raw = 2048, millis_ts = 3100\<rparr>\<rparr>,
           Some \<lparr>speed_mps = 14092861 / 33554432, speed_kph = 12683575 / 8388608, rpm = 120,
                  hall_raw = 2048, millis_ts = 3100\<rparr>) \<and>
   12683575 / 8388608 = mul_f32 (14092861 / 33554432) mps_to_kph \<and>
   \<bar>12683575 / 8388608 - 14092861 / 33554432 * 3.6\<bar> \<le> (14092861 / 33554432 * 3.6 / 2 ^ 22 :: real)"
  using fresh_tick kph_is_derived [of 3100 2048 fresh_snapshot 3100000 loop_startup
    "\<lparr>lastSendMs = 3100,
             tx = \<lparr>speed_mps = 14092861 / 33554432, speed_kph = 12683575 / 8388608, rpm = 120,
                    hall_raw = 2048, millis_ts = 3100\<rparr>\<rparr>"
    "\<lparr>speed_mps = 14092861 / 33554432, speed_kph = 12683575 / 8388608, rpm = 120,
                  hall_raw = 2048, millis_ts = 3100\<rparr>"]
  by simp

text \<open>
  Claim C10. The estimate always has a value, its rpm is never negative, and for a
  positive circumference neither are its speed and the speed in km/h derived from it.
  One pass of the loop always ends without a fault, and every packet it sends has
  non-negative \<open>rpm\<close>, \<open>speed_mps\<close> and \<open>speed_kph\<close>, for every snapshot, every time and
  every previous state.
\<close>

theorem fields_nonneg:
  "(\<exists>r v. estimate i m c = Some (r, v) \<and> 0 \<le> r \<and>
       (0 < c \<longrightarrow> 0 \<le> v \<and> 0 \<le> mul_f32 v mps_to_kph)) \<and>
   (\<exists>st' out. loop nowMs hallRaw snapshot nowUs st = Some (st', out) \<and>
       (\<forall>pkt. out = Some pkt \<longrightarrow> 0 \<le> rpm pkt \<and> 0 \<le> speed_mps pkt \<and> 0 \<le> speed_kph pkt))"
proof
  obtain r v where rv: "estimate i m c = Some (r, v)" "0 \<le> r" "0 \<le> c \<longrightarrow> 0 \<le> v"
    using estimate_total by blast
  have "0 \<le> mul_f32 v mps_to_kph" if "0 \<le> v"
    using that by (rule kph_nonneg)
  with rv show "\<exists>r v. estimate i m c = Some (r, v) \<and> 0 \<le> r \<and>
       (0 < c \<longrightarrow> 0 \<le> v \<and> 0 \<le> mul_f32 v mps_to_kph)"
    by auto
next
  obtain r v where rv: "0 \<le> r" "0 \<le> v"
    "loop nowMs hallRaw snapshot nowUs st =
     Some (if 100 \<le> nowMs - lastSendMs st
           then (\<lparr>lastSendMs = nowMs,
                   tx = \<lparr>speed_mps = v, speed_kph = mul_f32 v mps_to_kph, rpm = r,
                          hall_raw = hallRaw, millis_ts = nowMs\<rparr>\<rparr>,
                 Some \<lparr>speed_mps = v, speed_kph = mul_f32 v mps_to_kph, rpm = r,
                        hall_raw = hallRaw, millis_ts = nowMs\<rparr>)
           else (st, None))"
    using loop_total [of snapshot nowUs nowMs hallRaw st] by blast
  have "0 \<le> mul_f32 v mps_to_kph"
    using rv(2) by (rule kph_nonneg)
  with rv show "\<exists>st' out. loop nowMs hallRaw snapshot nowUs st = Some (st', out) \<and>
       (\<forall>pkt. out = Some pkt \<longrightarrow> 0 \<le> rpm pkt \<and> 0 \<le> speed_mps pkt \<and> 0 \<le> speed_kph pkt)"
    by auto
qed

theorem fields_nonneg_witness:
  "0 < WHEEL_CIRCUMFERENCE_M \<and>
   estimate 500000 1 WHEEL_CIRCUMFERENCE_M = Some (120, 14092861 / 33554432) \<and>
   (0::real) \<le> 120 \<and> (0::real) \<le> 14092861 / 33554432 \<and>
   0 \<le> mul_f32 (14092861 / 33554432) mps_to_kph \<and>
   loop 3100 2048 fresh_snapshot 3100000 loop_startup =
     Some (\<lparr>lastSendMs = 3100,
             tx = \<lparr>speed_mps = 14092861 / 33554432, speed_kph = 12683575 / 8388608, rpm = 120,
                    hall_raw = 2048, millis_ts = 3100\<rparr>\<rparr>,
           Some \<lparr>speed_mps = 14092861 / 33554432, speed_kph = 12683575 / 8388608, rpm = 120,
                  hall_raw = 2048, millis_ts = 3100\<rparr>) \<and>
   0 \<le> rpm \<lparr>speed_mps = 14092861 / 33554432, speed_kph = 12683575 / 8388608, rpm = 120,
                  hall_raw = 2048, millis_ts = 3100\<rparr> \<and>
   0 \<le> speed_mps \<lparr>speed_mps = 14092861 / 33554432, speed_kph = 12683575 / 8388608, rpm = 120,
                  hall_raw = 2048, millis_ts = 3100\<rparr> \<and>
   0 \<le> speed_kph \<lparr>speed_mps = 14092861 / 33554432, speed_kph = 12683575 / 8388608, rpm = 120,
                  hall_raw = 2048, millis_ts = 3100\<rparr>"
proof -
  have c: "0 < WHEEL_CIRCUMFERENCE_M"
    by (simp add: WHEEL_CIRCUMFERENCE_M_def f32_pos)
  note e = scenario_estimate
  obtain r0 v0 where est: "estimate 500000 1 WHEEL_CIRCUMFERENCE_M = Some (r0, v0)"
    and pos: "0 < WHEEL_CIRCUMFERENCE_M \<longrightarrow> 0 \<le> v0 \<and> 0 \<le> mul_f32 v0 mps_to_kph"
    using fields_nonneg [of 500000 1 WHEEL_CIRCUMFERENCE_M 3100 2048 fresh_snapshot 3100000 loop_startup]
    by blast
  from est e have "v0 = 14092861 / 33554432" by simp
  with pos c have "0 \<le> mul_f32 (14092861 / 33554432) mps_to_kph" by simp
  with c e fresh_tick show ?thesis by simp
qed

end
